theory Spec2Isabelle
  imports Main "HOL-Library.Word" "HOL-Library.Signed_Division"
begin

section \<open>Values shared by the two programs\<close>

text \<open>
  A Go \<^verbatim>\<open>error\<close> value is an interface; the programs only ever compare it with
  \<^verbatim>\<open>nil\<close> and call \<^verbatim>\<open>Error()\<close> on it. The model keeps the text that
  \<^verbatim>\<open>Error()\<close> returns and, for the errors of package net, what their
  \<^verbatim>\<open>Temporary()\<close> method answers. \<^verbatim>\<open>nil\<close> is \<open>None\<close> of \<open>error option\<close>.
\<close>

datatype error = Error (msg: string) (temporary: bool)

type_synonym byte = "8 word"

text \<open>Go's \<^verbatim>\<open>int\<close> on a 64-bit platform.\<close>

type_synonym goint = "64 word"

subsection \<open>Decimal rendering\<close>

definition digit :: "nat \<Rightarrow> char" where
  "digit d = ''0123456789'' ! d"

fun digits :: "nat \<Rightarrow> string" where
  "digits n = (if n < 10 then [digit n] else digits (n div 10) @ [digit (n mod 10)])"

declare digits.simps [simp del]

text \<open>\<^verbatim>\<open>strconv.Itoa\<close>: base-10 text of an int, with a leading minus sign when negative.\<close>

definition Itoa :: "int \<Rightarrow> string" where
  "Itoa i = (if i < 0 then CHR ''-'' # digits (nat (- i)) else digits (nat i))"

section \<open>The sales ratio (package mocking)\<close>

text \<open>
  \<^verbatim>\<open>time.Time\<close> is reduced to a count of nanoseconds. \<^verbatim>\<open>ShopModel\<close> is an interface
  with two methods; a value of it is modelled by the two methods themselves, each a
  function of the \<^verbatim>\<open>since\<close> argument returning the pair \<^verbatim>\<open>(int, error)\<close>.
\<close>

type_synonym time = int

record ShopModel =
  CountCustomers :: "time \<Rightarrow> goint \<times> error option"
  CountSales :: "time \<Rightarrow> goint \<times> error option"

datatype panic = DivideByZero

definition Hour :: int where
  "Hour = 3600 * 1000000000"

text \<open>
  Go's integer division \<^verbatim>\<open>a / b\<close> on \<^verbatim>\<open>int\<close>: a run-time panic when the divisor is
  zero, otherwise the quotient truncated towards zero, wrapped to 64 bits (the one
  overflowing case is the most negative value divided by \<open>-1\<close>).
\<close>

definition int_quo :: "goint \<Rightarrow> goint \<Rightarrow> panic + goint" where
  "int_quo a b = (if b = 0 then Inl DivideByZero else Inr (word_of_int (sint a sdiv sint b)))"

text \<open>
  The conversion \<^verbatim>\<open>float64(q)\<close> of an \<^verbatim>\<open>int\<close>: the nearest value with a 53-bit
  significand, ties to even. The result is again a whole number, so it is kept as an
  \<open>int\<close>.
\<close>

function bit_len :: "int \<Rightarrow> nat" where
  "bit_len n = (if n \<le> 0 then 0 else Suc (bit_len (n div 2)))"
  by pat_completeness auto
termination
  by (relation "measure nat") auto

declare bit_len.simps [simp del]

definition round53 :: "int \<Rightarrow> int" where
  "round53 m =
     (let sh = (if m < 2 ^ 53 then 0 else bit_len m - 53);
          q = m div 2 ^ sh;
          r = m mod 2 ^ sh
      in if sh = 0 then m
         else if 2 * r > 2 ^ sh \<or> (2 * r = 2 ^ sh \<and> odd q) then (q + 1) * 2 ^ sh
         else q * 2 ^ sh)"

definition float64 :: "goint \<Rightarrow> int" where
  "float64 q = (if sint q < 0 then - round53 (- sint q) else round53 (sint q))"

text \<open>\<^verbatim>\<open>fmt.Sprintf("%.2f", f)\<close> for a float whose value is the whole number \<open>f\<close>.\<close>

definition Sprintf_2f :: "int \<Rightarrow> string" where
  "Sprintf_2f f = Itoa f @ ''.00''"

text \<open>
  \<^verbatim>\<open>calculateSalesRatio\<close>. The first argument is what \<^verbatim>\<open>time.Now()\<close> returns.
  The result is the panic, or the pair \<^verbatim>\<open>(string, error)\<close> the function returns.
\<close>

definition calculateSalesRatio :: "time \<Rightarrow> ShopModel \<Rightarrow> panic + (string \<times> error option)" where
  "calculateSalesRatio now shopModel =
     (let since = now + (-24) * Hour;
          (customer, err) = CountCustomers shopModel since
      in if err \<noteq> None then Inr ('''', None)
         else
           let (sales, err) = CountSales shopModel since
           in if err \<noteq> None then Inr ('''', None)
              else (case int_quo customer sales of
                      Inl p \<Rightarrow> Inl p
                    | Inr q \<Rightarrow> Inr (Sprintf_2f (float64 q), None)))"

text \<open>The two implementations of the interface that return constants.\<close>

definition mongoDb :: ShopModel where
  "mongoDb = \<lparr>CountCustomers = (\<lambda>_. (1000, None)), CountSales = (\<lambda>_. (300, None))\<rparr>"

definition MockShopDB :: ShopModel where
  "MockShopDB = \<lparr>CountCustomers = (\<lambda>_. (1000, None)), CountSales = (\<lambda>_. (333, None))\<rparr>"

section \<open>The TCP responder (package main)\<close>

subsection \<open>Connections and observable effects\<close>

text \<open>
  \<^verbatim>\<open>net.Conn\<close> is an interface of the standard library. A connection is modelled by
  what its three methods used here do. \<open>inbound\<close> holds the bytes that are there to be
  read, \<open>read_err\<close> the error a \<^verbatim>\<open>Read\<close> reports, \<open>write_fail\<close> says whether a
  \<^verbatim>\<open>Write\<close> fails (after how many bytes, and with which error), \<open>close_err\<close> is what
  \<^verbatim>\<open>Close\<close> returns. \<open>outbound\<close> collects the bytes written to the peer and \<open>closes\<close>
  counts the calls of \<^verbatim>\<open>Close\<close>. Only calls that return are modelled.
\<close>

record Conn =
  remote :: string
  inbound :: "byte list"
  read_err :: "error option"
  write_fail :: "(nat \<times> error) option"
  close_err :: "error option"
  outbound :: "byte list"
  closes :: nat

text \<open>
  \<^verbatim>\<open>conn.Read(p)\<close> with \<^verbatim>\<open>len(p) = cap\<close>: copies at most \<open>cap\<close> of the bytes that are
  there and returns how many, with the error.
\<close>

definition conn_Read :: "nat \<Rightarrow> Conn \<Rightarrow> (nat \<times> error option) \<times> Conn" where
  "conn_Read cap c =
     (let n = min cap (length (inbound c))
      in ((n, read_err c), c\<lparr>inbound := drop n (inbound c)\<rparr>))"

definition conn_Write :: "byte list \<Rightarrow> Conn \<Rightarrow> (nat \<times> error option) \<times> Conn" where
  "conn_Write p c =
     (case write_fail c of
        None \<Rightarrow> ((length p, None), c\<lparr>outbound := outbound c @ p\<rparr>)
      | Some (k, e) \<Rightarrow> ((min k (length p), Some e), c\<lparr>outbound := outbound c @ take k p\<rparr>))"

definition conn_Close :: "Conn \<Rightarrow> error option \<times> Conn" where
  "conn_Close c = (close_err c, c\<lparr>closes := closes c + 1\<rparr>)"

text \<open>
  What a run does to the outside world, in order: output of \<^verbatim>\<open>fmt.Print\<close>, a call of
  \<^verbatim>\<open>log.Fatalf\<close> (with the format string it is given; the programs pass no further
  argument), a call of \<^verbatim>\<open>slog.Info\<close> (message and attribute keys), and the calls on
  a connection. \<^verbatim>\<open>log.Fatalf\<close> logs and then ends the process with exit status 1.
\<close>

datatype event =
    Print string
  | Fatalf string
  | Info string "string list"
  | CallRead nat
  | CallWrite "byte list"
  | CallClose

fun is_log :: "event \<Rightarrow> bool" where
  "is_log (Fatalf _) = True"
| "is_log (Info _ _) = True"
| "is_log _ = False"

fun is_Info :: "event \<Rightarrow> bool" where
  "is_Info (Info _ _) = True"
| "is_Info _ = False"

fun is_CallRead :: "event \<Rightarrow> bool" where
  "is_CallRead (CallRead _) = True"
| "is_CallRead _ = False"

fun is_CallWrite :: "event \<Rightarrow> bool" where
  "is_CallWrite (CallWrite _) = True"
| "is_CallWrite _ = False"

text \<open>The conversion \<^verbatim>\<open>[]byte(s)\<close> of a string.\<close>

definition bytes :: "string \<Rightarrow> byte list" where
  "bytes s = map (\<lambda>c. of_nat (of_char c)) s"

definition CRLF :: string where
  "CRLF = [CHR 0x0D, CHR 0x0A]"

text \<open>The literal \<^verbatim>\<open>"HTTP/1.1 200 OK\r\n\r\nHello, World\r\n"\<close> of line 18.\<close>

definition response :: string where
  "response = ''HTTP/1.1 200 OK'' @ CRLF @ CRLF @ ''Hello, World'' @ CRLF"

subsection \<open>The handler, run from call to return\<close>

text \<open>
  The result of one call of \<^verbatim>\<open>doSomething\<close>: the connection as the call leaves it, the
  effects in order, and the exit status when the call ended the process.
\<close>

record outcome =
  conn :: Conn
  trace :: "event list"
  exit :: "int option"

definition doSomething :: "Conn \<Rightarrow> outcome" where
  "doSomething conn0 =
     (let ((n, err), conn1) = conn_Read 1024 conn0;
          t1 = [CallRead 1024]
      in case err of
           Some e \<Rightarrow>
             \<lparr>conn = conn1, trace = t1 @ [Fatalf (''error reading. error: %v'' @ msg e)],
              exit = Some 1\<rparr>
         | None \<Rightarrow>
             let t2 = t1 @ [Info (''number of bytes'' @ Itoa (int n)) []];
                 (_, conn2) = conn_Write (bytes response) conn1;
                 t3 = t2 @ [CallWrite (bytes response)];
                 (_, conn3) = conn_Close conn2;
                 t4 = t3 @ [CallClose]
             in \<lparr>conn = conn3, trace = t4, exit = None\<rparr>)"

subsection \<open>The handler as a goroutine, statement by statement\<close>

text \<open>
  \<^verbatim>\<open>main\<close> starts every handler with \<^verbatim>\<open>go\<close>, so handlers run interleaved with the
  accept loop and with each other. A goroutine running \<^verbatim>\<open>doSomething\<close> is its
  connection, its local variables \<^verbatim>\<open>n\<close> and \<^verbatim>\<open>err\<close>, and the source line it is
  about to execute.
\<close>

datatype hpc = H13 | H14 | H17 | H18 | H19 | HRet

record goroutine =
  g_pc :: hpc
  g_conn :: Conn
  g_n :: nat
  g_err :: "error option"

text \<open>
  One statement of \<^verbatim>\<open>doSomething\<close>: the goroutine afterwards, the effects, and the exit
  status when the statement ended the process.
\<close>

definition doSomething_step :: "goroutine \<Rightarrow> goroutine \<times> event list \<times> int option" where
  "doSomething_step g =
     (case g_pc g of
        H13 \<Rightarrow>
          let ((n, err), c) = conn_Read 1024 (g_conn g)
          in (g\<lparr>g_pc := H14, g_conn := c, g_n := n, g_err := err\<rparr>, [CallRead 1024], None)
      | H14 \<Rightarrow>
          (case g_err g of
             Some e \<Rightarrow> (g, [Fatalf (''error reading. error: %v'' @ msg e)], Some 1)
           | None \<Rightarrow> (g\<lparr>g_pc := H17\<rparr>, [], None))
      | H17 \<Rightarrow>
          (g\<lparr>g_pc := H18\<rparr>, [Info (''number of bytes'' @ Itoa (int (g_n g))) []], None)
      | H18 \<Rightarrow>
          let (_, c) = conn_Write (bytes response) (g_conn g)
          in (g\<lparr>g_pc := H19, g_conn := c\<rparr>, [CallWrite (bytes response)], None)
      | H19 \<Rightarrow>
          let (_, c) = conn_Close (g_conn g)
          in (g\<lparr>g_pc := HRet, g_conn := c\<rparr>, [CallClose], None)
      | HRet \<Rightarrow> (g, [], None))"

definition spawn :: "Conn \<Rightarrow> goroutine" where
  "spawn c = \<lparr>g_pc = H13, g_conn = c, g_n = 0, g_err = None\<rparr>"

subsection \<open>The process: accept loop and handlers\<close>

text \<open>
  The network decides what \<^verbatim>\<open>net.Listen\<close> returns and what each call of
  \<^verbatim>\<open>listener.Accept\<close> returns: a connection, or an error. \<open>backlog\<close> lists the
  results of the calls of \<^verbatim>\<open>Accept\<close> still to come; with an empty backlog
  \<^verbatim>\<open>Accept\<close> blocks.
\<close>

datatype accepted = Accepted Conn | AcceptError error

datatype mpc = M23 | M26 | M27 | M31 | M37 | M38 | M42 | M45

datatype tid = MainT | HandlerT nat

record server =
  exited :: "int option"
  listen_result :: "error option"
  backlog :: "accepted list"
  m_pc :: mpc
  m_err :: "error option"
  m_conn :: "Conn option"
  goroutines :: "goroutine list"
  log :: "(tid \<times> event) list"

definition boot :: "error option \<Rightarrow> accepted list \<Rightarrow> server" where
  "boot lr acc =
     \<lparr>exited = None, listen_result = lr, backlog = acc, m_pc = M23, m_err = None,
      m_conn = None, goroutines = [], log = []\<rparr>"

definition Fatalf_in :: "tid \<Rightarrow> string \<Rightarrow> server \<Rightarrow> server" where
  "Fatalf_in t fmt s = s\<lparr>log := log s @ [(t, Fatalf fmt)], exited := Some 1\<rparr>"

text \<open>One statement of \<^verbatim>\<open>main\<close>, by source line.\<close>

definition main_step :: "server \<Rightarrow> server" where
  "main_step s =
     (case m_pc s of
        M23 \<Rightarrow> s\<lparr>log := log s @ [(MainT, Print ''Server starting'')], m_pc := M26\<rparr>
      | M26 \<Rightarrow> s\<lparr>m_err := listen_result s, m_pc := M27\<rparr>
      | M27 \<Rightarrow>
          (case m_err s of
             Some e \<Rightarrow> Fatalf_in MainT (''unable to get listener. error: %v'' @ msg e) s
           | None \<Rightarrow> s\<lparr>m_pc := M31\<rparr>)
      | M31 \<Rightarrow> s\<lparr>log := log s @ [(MainT, Info ''Server listening'' [''listner''])], m_pc := M37\<rparr>
      | M37 \<Rightarrow>
          (case backlog s of
             [] \<Rightarrow> s
           | Accepted c # rest \<Rightarrow>
               s\<lparr>backlog := rest, m_conn := Some c, m_err := None, m_pc := M38\<rparr>
           | AcceptError e # rest \<Rightarrow>
               s\<lparr>backlog := rest, m_conn := None, m_err := Some e, m_pc := M38\<rparr>)
      | M38 \<Rightarrow>
          (case m_err s of
             Some e \<Rightarrow> Fatalf_in MainT (''unable to get listener. error: %v'' @ msg e) s
           | None \<Rightarrow> s\<lparr>m_pc := M42\<rparr>)
      | M42 \<Rightarrow>
          s\<lparr>log := log s @ [(MainT, Info ''connection waiting for accept. '' [''conn''])],
            m_pc := M45\<rparr>
      | M45 \<Rightarrow>
          (case m_conn s of
             Some c \<Rightarrow> s\<lparr>goroutines := goroutines s @ [spawn c], m_pc := M37\<rparr>
           | None \<Rightarrow> s\<lparr>m_pc := M37\<rparr>))"

text \<open>One statement of the handler goroutine number \<open>k\<close> (in the order of their start).\<close>

definition handler_step :: "nat \<Rightarrow> server \<Rightarrow> server" where
  "handler_step k s =
     (if k < length (goroutines s) then
        let (g, evs, ex) = doSomething_step (goroutines s ! k)
        in s\<lparr>goroutines := (goroutines s)[k := g],
             log := log s @ map (Pair (HandlerT k)) evs,
             exited := ex\<rparr>
      else s)"

text \<open>
  The scheduler picks who executes the next statement. Once the process has exited
  nothing runs any more.
\<close>

definition step :: "tid \<Rightarrow> server \<Rightarrow> server" where
  "step t s =
     (if exited s \<noteq> None then s
      else case t of MainT \<Rightarrow> main_step s | HandlerT k \<Rightarrow> handler_step k s)"

fun run :: "tid list \<Rightarrow> server \<Rightarrow> server" where
  "run [] s = s"
| "run (t # ts) s = run ts (step t s)"

text \<open>
  The program: \<^verbatim>\<open>main\<close> under a schedule, with the results of \<^verbatim>\<open>net.Listen\<close> and
  of the calls of \<^verbatim>\<open>Accept\<close>.
\<close>

definition main :: "tid list \<Rightarrow> error option \<Rightarrow> accepted list \<Rightarrow> server" where
  "main sched lr acc = run sched (boot lr acc)"

text \<open>The events of one goroutine, in order.\<close>

definition events_of :: "tid \<Rightarrow> server \<Rightarrow> event list" where
  "events_of t s = map snd (filter (\<lambda>x. fst x = t) (log s))"

subsection \<open>Reading a rendered number back\<close>

text \<open>The number a string of decimal digits stands for.\<close>

definition undigits :: "string \<Rightarrow> nat" where
  "undigits s = foldl (\<lambda>a ch. 10 * a + (of_char ch - 48)) 0 s"

subsection \<open>Running one goroutine alone\<close>

text \<open>
  At most \<open>k\<close> statements of one goroutine, stopping when a statement ends the
  process; the effects are appended to \<open>t\<close>.
\<close>

fun steps :: "nat \<Rightarrow> goroutine \<Rightarrow> event list \<Rightarrow> goroutine \<times> event list \<times> int option" where
  "steps 0 g t = (g, t, None)"
| "steps (Suc k) g t =
     (let (g', evs, ex) = doSomething_step g
      in if ex \<noteq> None then (g', t @ evs, ex) else steps k g' (t @ evs))"

subsection \<open>Sample clients\<close>

definition EOF :: error where
  "EOF = Error ''EOF'' False"

text \<open>A client that sends \<^verbatim>\<open>PING\<close> and waits for the answer.\<close>

definition client_ping :: Conn where
  "client_ping =
     \<lparr>remote = ''192.0.2.7:51034'', inbound = bytes ''PING'', read_err = None,
      write_fail = None, close_err = None, outbound = [], closes = 0\<rparr>"

text \<open>A client that connects and closes without sending: the read reports \<^verbatim>\<open>io.EOF\<close>.\<close>

definition client_gone :: Conn where
  "client_gone = client_ping\<lparr>inbound := [], read_err := Some EOF\<rparr>"

text \<open>A client that sends \<^verbatim>\<open>PING\<close> and resets the connection, so that the write fails.\<close>

definition client_reset :: Conn where
  "client_reset = client_ping\<lparr>write_fail := Some (0, Error ''write: broken pipe'' False)\<rparr>"

text \<open>A connection whose read returns zero bytes and no error.\<close>

definition client_silent :: Conn where
  "client_silent = client_ping\<lparr>inbound := []\<rparr>"

text \<open>An accept error that package net reports as temporary.\<close>

definition emfile :: error where
  "emfile = Error ''accept tcp [::]:8080: accept4: too many open files'' True"

text \<open>
  A schedule that lets \<^verbatim>\<open>main\<close> start and accept the first connection, runs the first
  handler to its end, lets \<^verbatim>\<open>main\<close> accept the second connection, and runs the second
  handler to its end.
\<close>

definition one_by_one :: "tid list" where
  "one_by_one =
     [MainT, MainT, MainT, MainT,
      MainT, MainT, MainT, MainT,
      HandlerT 0, HandlerT 0, HandlerT 0, HandlerT 0, HandlerT 0,
      MainT, MainT, MainT, MainT,
      HandlerT 1, HandlerT 1, HandlerT 1, HandlerT 1, HandlerT 1]"

text \<open>The process when \<^verbatim>\<open>main\<close> reaches \<^verbatim>\<open>Accept\<close> for the first time.\<close>

definition listening :: "accepted list \<Rightarrow> server" where
  "listening acc = main [MainT, MainT, MainT, MainT] None acc"

text \<open>The process when the handler of its only connection is about to write.\<close>

definition at_write :: "Conn \<Rightarrow> server" where
  "at_write c =
     main [MainT, MainT, MainT, MainT, MainT, MainT, MainT, MainT,
           HandlerT 0, HandlerT 0, HandlerT 0] None [Accepted c]"

subsection \<open>Invariants and measures of the process\<close>

text \<open>
  A connection as \<^verbatim>\<open>Accept\<close> hands it over when nothing goes wrong on its read side:
  nothing written yet, not closed, and a read that reports no error.
\<close>

definition fresh :: "Conn \<Rightarrow> bool" where
  "fresh c \<longleftrightarrow> read_err c = None \<and> outbound c = [] \<and> closes c = 0"

fun well_behaved :: "accepted \<Rightarrow> bool" where
  "well_behaved (Accepted c) = (read_err c = None \<and> outbound c = [] \<and> closes c = 0)"
| "well_behaved (AcceptError e) = False"

text \<open>What the write of the response gets through to the peer of a connection.\<close>

definition delivered :: "Conn \<Rightarrow> byte list" where
  "delivered c =
     (case write_fail c of None \<Rightarrow> bytes response | Some (k, e) \<Rightarrow> take k (bytes response))"

definition g_inv :: "goroutine \<Rightarrow> bool" where
  "g_inv g \<longleftrightarrow>
     read_err (g_conn g) = None
     \<and> (g_pc g = H14 \<longrightarrow> g_err g = None)
     \<and> outbound (g_conn g) = (if g_pc g \<in> {H19, HRet} then delivered (g_conn g) else [])
     \<and> closes (g_conn g) = (if g_pc g = HRet then 1 else 0)"

definition m_inv :: "server \<Rightarrow> bool" where
  "m_inv s \<longleftrightarrow>
     (m_pc s \<in> {M23, M26} \<longrightarrow> listen_result s = None)
     \<and> (m_pc s \<in> {M27, M38} \<longrightarrow> m_err s = None)
     \<and> (m_pc s \<in> {M38, M42, M45} \<longrightarrow> (\<exists>c. m_conn s = Some c \<and> well_behaved (Accepted c)))"

definition s_inv :: "server \<Rightarrow> bool" where
  "s_inv s \<longleftrightarrow>
     exited s = None \<and> list_all well_behaved (backlog s) \<and> list_all g_inv (goroutines s)
     \<and> m_inv s"

fun accepted_conns :: "accepted list \<Rightarrow> Conn list" where
  "accepted_conns [] = []"
| "accepted_conns (Accepted c # rest) = c # accepted_conns rest"
| "accepted_conns (AcceptError e # rest) = accepted_conns rest"

text \<open>
  All connections of a run in the order of their acceptance: those handed to a
  goroutine, the one \<^verbatim>\<open>main\<close> holds between \<^verbatim>\<open>Accept\<close> and \<^verbatim>\<open>go\<close>, and those to come.
\<close>

definition clients :: "server \<Rightarrow> Conn list" where
  "clients s =
     map g_conn (goroutines s)
     @ (if m_pc s \<in> {M38, M42, M45} then (case m_conn s of Some c \<Rightarrow> [c] | None \<Rightarrow> []) else [])
     @ accepted_conns (backlog s)"

text \<open>What no call on a connection changes: who the peer is and how its writes fare.\<close>

definition peer :: "Conn \<Rightarrow> string \<times> (nat \<times> error) option" where
  "peer c = (remote c, write_fail c)"

text \<open>
  The number of statements \<^verbatim>\<open>main\<close> still executes before it blocks in \<^verbatim>\<open>Accept\<close>
  on an empty backlog, and the number of statements a handler still executes before it
  returns, when no call reports an error.
\<close>

fun m_dist :: "mpc \<Rightarrow> nat" where
  "m_dist M23 = 4" | "m_dist M26 = 3" | "m_dist M27 = 2" | "m_dist M31 = 1"
| "m_dist M37 = 0" | "m_dist M38 = 3" | "m_dist M42 = 2" | "m_dist M45 = 1"

definition m_rem :: "server \<Rightarrow> nat" where
  "m_rem s = m_dist (m_pc s) + 4 * length (backlog s)"

fun h_rem :: "hpc \<Rightarrow> nat" where
  "h_rem H13 = 5" | "h_rem H14 = 4" | "h_rem H17 = 3" | "h_rem H18 = 2" | "h_rem H19 = 1"
| "h_rem HRet = 0"

text \<open>
  The process from the moment the next \<^verbatim>\<open>Accept\<close> is going to return the error \<open>e\<close>:
  \<^verbatim>\<open>main\<close> is at the call or at the check after it, or the process has exited.
\<close>

definition accept_failing :: "error \<Rightarrow> accepted list \<Rightarrow> nat \<Rightarrow> server \<Rightarrow> bool" where
  "accept_failing e rest n s \<longleftrightarrow>
     length (goroutines s) = n
     \<and> (case exited s of
          None \<Rightarrow> (m_pc s = M37 \<and> backlog s = AcceptError e # rest)
                  \<or> (m_pc s = M38 \<and> m_err s = Some e \<and> backlog s = rest)
        | Some x \<Rightarrow> x = 1 \<and> (backlog s = AcceptError e # rest \<or> backlog s = rest))"

definition a_rank :: "server \<Rightarrow> nat" where
  "a_rank s = (if exited s \<noteq> None then 0 else if m_pc s = M37 then 2 else 1)"

section \<open>Properties of the sales ratio\<close>

lemma digits_eval:
  "n < 10 \<Longrightarrow> digits n = [digit n]"
  "10 \<le> n \<Longrightarrow> digits n = digits (n div 10) @ [digit (n mod 10)]"
  by (simp_all add: digits.simps [of n])

text \<open>The repository's test \<^verbatim>\<open>TestCalculateSalesRate\<close>: the mock yields \<^verbatim>\<open>"3.00"\<close>.\<close>

lemma TestCalculateSalesRate:
  "calculateSalesRatio now MockShopDB = Inr (''3.00'', None)"
  by (simp add: calculateSalesRatio_def MockShopDB_def int_quo_def float64_def round53_def
      Sprintf_2f_def Itoa_def digits_eval digit_def signed_divide_int_def)

text \<open>
  C9. When \<^verbatim>\<open>CountCustomers\<close> or \<^verbatim>\<open>CountSales\<close> returns a non-nil error at the
  \<^verbatim>\<open>since\<close> value it is called with, \<^verbatim>\<open>calculateSalesRatio\<close> returns the empty
  string together with a nil error: the underlying error is dropped and the caller sees
  no failure.
\<close>

theorem calculateSalesRatio_discards_error:
  assumes "snd (CountCustomers shopModel (now + (-24) * Hour)) \<noteq> None
         \<or> snd (CountSales shopModel (now + (-24) * Hour)) \<noteq> None"
  shows "calculateSalesRatio now shopModel = Inr ('''', None)"
  using assms
  by (auto simp: calculateSalesRatio_def Let_def split: prod.splits sum.splits)

theorem calculateSalesRatio_discards_error_witness:
  "snd (CountSales \<lparr>CountCustomers = (\<lambda>_. (1000, None)),
                    CountSales = (\<lambda>_. (0, Some (Error ''sql: database is closed'' False)))\<rparr>
          (0 + (-24) * Hour)) \<noteq> None
   \<and> calculateSalesRatio 0
        \<lparr>CountCustomers = (\<lambda>_. (1000, None)),
         CountSales = (\<lambda>_. (0, Some (Error ''sql: database is closed'' False)))\<rparr>
       = Inr ('''', None)"
  using calculateSalesRatio_discards_error
    [of "\<lparr>CountCustomers = (\<lambda>_. (1000, None)),
          CountSales = (\<lambda>_. (0, Some (Error ''sql: database is closed'' False)))\<rparr>" 0]
  by simp

text \<open>
  C10. When \<^verbatim>\<open>CountCustomers\<close> succeeds and \<^verbatim>\<open>CountSales\<close> returns 0 with a nil
  error, \<^verbatim>\<open>calculateSalesRatio\<close> reaches the integer division \<^verbatim>\<open>customer/sales\<close>
  with a zero divisor: the result is the division-by-zero panic.
\<close>

theorem calculateSalesRatio_zero_sales_panics:
  assumes "CountCustomers shopModel (now + (-24) * Hour) = (customer, None)"
    and "CountSales shopModel (now + (-24) * Hour) = (0, None)"
  shows "calculateSalesRatio now shopModel = Inl DivideByZero"
  using assms by (simp add: calculateSalesRatio_def int_quo_def)

theorem calculateSalesRatio_zero_sales_panics_witness:
  "CountCustomers \<lparr>CountCustomers = (\<lambda>_. (1000, None)), CountSales = (\<lambda>_. (0, None))\<rparr>
      (7 + (-24) * Hour) = (1000, None)
   \<and> CountSales \<lparr>CountCustomers = (\<lambda>_. (1000, None)), CountSales = (\<lambda>_. (0, None))\<rparr>
      (7 + (-24) * Hour) = (0, None)
   \<and> calculateSalesRatio 7
        \<lparr>CountCustomers = (\<lambda>_. (1000, None)), CountSales = (\<lambda>_. (0, None))\<rparr>
       = Inl DivideByZero"
  using calculateSalesRatio_zero_sales_panics
    [of "\<lparr>CountCustomers = (\<lambda>_. (1000, None)), CountSales = (\<lambda>_. (0, None))\<rparr>" 7 1000]
  by simp

section \<open>Properties of the handler\<close>

lemmas sample_clients = client_ping_def client_gone_def client_reset_def client_silent_def EOF_def

subsection \<open>The rendered byte count determines the count\<close>

lemma of_char_digit: "d < 10 \<Longrightarrow> of_char (digit d) = 48 + d"
proof -
  assume "d < 10"
  then have "d \<in> {0,1,2,3,4,5,6,7,8,9}" by auto
  then show ?thesis by (auto simp: digit_def)
qed

lemma undigits_snoc: "undigits (s @ [ch]) = 10 * undigits s + (of_char ch - 48)"
  by (simp add: undigits_def)

lemma undigits_digits: "undigits (digits n) = n"
proof (induction n rule: digits.induct)
  case (1 n)
  show ?case
  proof (cases "n < 10")
    case True
    then show ?thesis by (simp add: digits_eval undigits_def of_char_digit)
  next
    case False
    then have "undigits (digits n) =
        10 * undigits (digits (n div 10)) + (of_char (digit (n mod 10)) - 48)"
      by (simp add: digits_eval undigits_snoc)
    also have "\<dots> = 10 * (n div 10) + n mod 10"
      using 1 False by (simp add: of_char_digit)
    finally show ?thesis by simp
  qed
qed

lemma Itoa_nat_inject: "Itoa (int a) = Itoa (int b) \<Longrightarrow> a = b"
  by (metis Itoa_def nat_int of_nat_less_0_iff undigits_digits)

subsection \<open>The two paths through the handler\<close>

lemma doSomething_read_ok:
  assumes "read_err c = None"
  shows "doSomething c =
    \<lparr>conn = snd (conn_Close (snd (conn_Write (bytes response) (snd (conn_Read 1024 c))))),
     trace = [CallRead 1024,
              Info (''number of bytes'' @ Itoa (int (fst (fst (conn_Read 1024 c))))) [],
              CallWrite (bytes response), CallClose],
     exit = None\<rparr>"
  using assms by (simp add: doSomething_def conn_Read_def Let_def split: prod.splits)

lemma doSomething_read_failed:
  assumes "read_err c = Some e"
  shows "doSomething c =
    \<lparr>conn = snd (conn_Read 1024 c),
     trace = [CallRead 1024, Fatalf (''error reading. error: %v'' @ msg e)],
     exit = Some 1\<rparr>"
  using assms by (simp add: doSomething_def conn_Read_def Let_def split: prod.splits)

text \<open>
  The goroutine, run alone for five statements, does what the call does: the two
  renderings of \<^verbatim>\<open>doSomething\<close> agree.
\<close>

lemma steps_doSomething:
  "steps 5 (spawn c) [] = (g, t, ex) \<Longrightarrow>
     g_conn g = conn (doSomething c) \<and> t = trace (doSomething c) \<and> ex = exit (doSomething c)
     \<and> (ex = None \<longrightarrow> g_pc g = HRet)"
  by (cases "read_err c")
     (auto simp: numeral_eq_Suc spawn_def doSomething_step_def doSomething_def conn_Read_def
       Let_def split: prod.splits)

text \<open>The bytes of the response, one by one.\<close>

lemma response_bytes:
  "bytes response =
     [72, 84, 84, 80, 47, 49, 46, 49, 32, 50, 48, 48, 32, 79, 75, 13, 10, 13, 10,
      72, 101, 108, 108, 111, 44, 32, 87, 111, 114, 108, 100, 13, 10]"
  by (simp add: bytes_def response_def CRLF_def)

subsection \<open>The response\<close>

text \<open>
  C1, as stated: every accepted connection gets exactly one response payload before it
  is closed, whatever the client sent. This fails for a client that closes without
  sending: the read reports \<^verbatim>\<open>io.EOF\<close>, \<^verbatim>\<open>log.Fatalf\<close> ends the process, and
  nothing is written.
\<close>

theorem doSomething_read_error_writes_nothing:
  "filter is_CallWrite (trace (doSomething client_gone)) = []
   \<and> outbound (conn (doSomething client_gone)) = []
   \<and> exit (doSomething client_gone) = Some 1"
  by (simp add: doSomething_def conn_Read_def sample_clients)

text \<open>
  C1, amended: for every connection whose read returns no error, a call of
  \<^verbatim>\<open>doSomething\<close> that runs from call to return makes exactly one \<^verbatim>\<open>Write\<close> call, with
  the literal response, after the read and the byte-count log and before the one
  \<^verbatim>\<open>Close\<close>, whatever bytes the client sent; when that write does not fail, exactly
  the response is added to what the peer receives.
\<close>

theorem doSomething_writes_response_once:
  assumes "read_err c = None"
  shows "trace (doSomething c) =
           [CallRead 1024,
            Info (''number of bytes'' @ Itoa (int (min 1024 (length (inbound c))))) [],
            CallWrite (bytes response), CallClose]
       \<and> (write_fail c = None \<longrightarrow>
            outbound (conn (doSomething c)) = outbound c @ bytes response)"
  using assms
  by (simp add: doSomething_read_ok conn_Read_def conn_Write_def conn_Close_def Let_def)

theorem doSomething_writes_response_once_witness:
  "read_err client_ping = None
   \<and> trace (doSomething client_ping) =
        [CallRead 1024, Info ''number of bytes4'' [], CallWrite (bytes response), CallClose]
   \<and> outbound (conn (doSomething client_ping)) = bytes response"
  using doSomething_writes_response_once [of client_ping]
  by (simp add: sample_clients bytes_def Itoa_def digits_eval digit_def)

subsection \<open>Closing\<close>

text \<open>
  C2, as stated: the connection is closed exactly once on every exit path, also after a
  failed read. This fails: after a failed read the handler ends the process with
  \<^verbatim>\<open>log.Fatalf\<close> and never calls \<^verbatim>\<open>Close\<close>.
\<close>

theorem doSomething_read_error_never_closes:
  "closes client_gone = 0
   \<and> closes (conn (doSomething client_gone)) = 0
   \<and> CallClose \<notin> set (trace (doSomething client_gone))
   \<and> exit (doSomething client_gone) = Some 1"
  by (simp add: doSomething_def conn_Read_def sample_clients)

text \<open>
  C2, amended: for every connection whose read returns no error, the handler closes the
  connection exactly once, as its last action, whether the write succeeds or fails, and
  returns without ending the process.
\<close>

theorem doSomething_closes_once:
  assumes "read_err c = None"
  shows "closes (conn (doSomething c)) = closes c + 1
       \<and> count_list (trace (doSomething c)) CallClose = 1
       \<and> last (trace (doSomething c)) = CallClose
       \<and> exit (doSomething c) = None"
  using assms
  by (simp add: doSomething_read_ok conn_Read_def conn_Write_def conn_Close_def Let_def
      split: option.splits prod.splits)

theorem doSomething_closes_once_witness:
  "read_err client_reset = None
   \<and> closes (conn (doSomething client_reset)) = 1
   \<and> count_list (trace (doSomething client_reset)) CallClose = 1
   \<and> last (trace (doSomething client_reset)) = CallClose
   \<and> exit (doSomething client_reset) = None"
  using doSomething_closes_once [of client_reset]
  by (simp add: sample_clients)

subsection \<open>A failed or empty read\<close>

text \<open>
  C3, as stated: after a read error, or a read of zero bytes with no error, the handler
  logs and goes directly to closing the connection, and does not end the process. Both
  halves fail: a read error ends the process with exit status 1 and the connection is
  not closed by the handler; a read of zero bytes with no error is followed by the
  write of the response before the connection is closed.
\<close>

theorem doSomething_read_error_exits:
  "read_err client_gone \<noteq> None
   \<and> exit (doSomething client_gone) = Some 1
   \<and> closes (conn (doSomething client_gone)) = closes client_gone
   \<and> read_err client_silent = None \<and> inbound client_silent = []
   \<and> trace (doSomething client_silent) =
        [CallRead 1024, Info ''number of bytes0'' [], CallWrite (bytes response), CallClose]"
  by (simp add: doSomething_def conn_Read_def conn_Write_def conn_Close_def sample_clients
      Itoa_def digits_eval digit_def)

text \<open>
  C3, amended: when the read returns an error, the handler passes it to \<^verbatim>\<open>log.Fatalf\<close>,
  which logs it and ends the process with exit status 1; nothing is written and the
  handler does not close the connection. When the read returns zero bytes and no error,
  the handler logs the byte count 0, writes the response, closes the connection and
  returns; the process goes on.
\<close>

theorem doSomething_after_read:
  "(read_err c = Some e \<longrightarrow>
      trace (doSomething c) = [CallRead 1024, Fatalf (''error reading. error: %v'' @ msg e)]
      \<and> exit (doSomething c) = Some 1
      \<and> closes (conn (doSomething c)) = closes c
      \<and> outbound (conn (doSomething c)) = outbound c)
   \<and> (read_err c = None \<and> inbound c = [] \<longrightarrow>
      trace (doSomething c) =
        [CallRead 1024, Info ''number of bytes0'' [], CallWrite (bytes response), CallClose]
      \<and> exit (doSomething c) = None
      \<and> closes (conn (doSomething c)) = closes c + 1)"
  by (auto simp: doSomething_read_ok doSomething_read_failed conn_Read_def conn_Write_def
      conn_Close_def Let_def Itoa_def digits_eval digit_def split: option.splits prod.splits)

theorem doSomething_after_read_witness:
  "(read_err client_gone = Some EOF \<and>
      trace (doSomething client_gone) = [CallRead 1024, Fatalf ''error reading. error: %vEOF'']
      \<and> exit (doSomething client_gone) = Some 1
      \<and> closes (conn (doSomething client_gone)) = 0
      \<and> outbound (conn (doSomething client_gone)) = [])
   \<and> (read_err client_silent = None \<and> inbound client_silent = [] \<and>
      trace (doSomething client_silent) =
        [CallRead 1024, Info ''number of bytes0'' [], CallWrite (bytes response), CallClose]
      \<and> exit (doSomething client_silent) = None
      \<and> closes (conn (doSomething client_silent)) = 1)"
  using doSomething_after_read [of client_gone EOF] doSomething_after_read [of client_silent EOF]
  by (simp add: sample_clients)

subsection \<open>The byte count\<close>

text \<open>
  C7, as stated: whenever the read completes with \<open>N\<close> bytes, \<open>N = 0\<close> included, the
  handler logs \<open>N\<close> as the byte count. This fails for a client that closes without
  sending: the read completes with 0 bytes and \<^verbatim>\<open>io.EOF\<close>, the handler goes to
  \<^verbatim>\<open>log.Fatalf\<close>, and no byte count is logged.
\<close>

theorem doSomething_eof_logs_no_byte_count:
  "conn_Read 1024 client_gone = ((0, Some EOF), client_gone)
   \<and> filter is_Info (trace (doSomething client_gone)) = []
   \<and> trace (doSomething client_gone) = [CallRead 1024, Fatalf ''error reading. error: %vEOF'']"
  by (simp add: doSomething_def conn_Read_def sample_clients)

text \<open>
  C7, amended: when the read returns \<open>N\<close> bytes and no error (\<open>N\<close> may be 0), the
  handler logs exactly one message, \<^verbatim>\<open>number of bytes\<close> followed by the decimal text
  of \<open>N\<close>; by \<open>Itoa_nat_inject\<close> that text stands for no other count. When the read
  returns an error, whatever its byte count, the handler logs no byte count.
\<close>

theorem doSomething_logs_byte_count:
  "(conn_Read 1024 c = ((N, None), c') \<longrightarrow>
      filter is_Info (trace (doSomething c)) = [Info (''number of bytes'' @ Itoa (int N)) []])
   \<and> (conn_Read 1024 c = ((N, Some e), c') \<longrightarrow>
      filter is_Info (trace (doSomething c)) = [])"
  by (simp add: doSomething_def split: prod.splits)

theorem doSomething_logs_byte_count_witness:
  "conn_Read 1024 client_ping = ((4, None), client_ping\<lparr>inbound := []\<rparr>)
   \<and> filter is_Info (trace (doSomething client_ping)) = [Info ''number of bytes4'' []]
   \<and> conn_Read 1024 client_gone = ((0, Some EOF), client_gone)
   \<and> filter is_Info (trace (doSomething client_gone)) = []"
  using doSomething_logs_byte_count [of client_ping 4 "client_ping\<lparr>inbound := []\<rparr>" EOF]
    doSomething_logs_byte_count [of client_gone 0 client_gone EOF]
  by (simp add: conn_Read_def sample_clients bytes_def Itoa_def digits_eval digit_def)

subsection \<open>The single bounded read\<close>

text \<open>
  C8. The handler calls \<^verbatim>\<open>Read\<close> exactly once, with a buffer of 1024 bytes: that read
  returns at most 1024, so the handler takes at most the first 1024 bytes off the
  connection, and there is no second read.
\<close>

theorem doSomething_reads_once:
  "filter is_CallRead (trace (doSomething c)) = [CallRead 1024]
   \<and> fst (fst (conn_Read 1024 c)) \<le> 1024
   \<and> inbound (conn (doSomething c)) = drop 1024 (inbound c)
   \<and> length (inbound c) - length (inbound (conn (doSomething c))) \<le> 1024"
  by (auto simp: doSomething_def conn_Read_def conn_Write_def conn_Close_def Let_def min_def
      split: option.splits prod.splits)

theorem doSomething_reads_once_witness:
  "filter is_CallRead (trace (doSomething (client_ping\<lparr>inbound := replicate 2000 65\<rparr>)))
     = [CallRead 1024]
   \<and> fst (fst (conn_Read 1024 (client_ping\<lparr>inbound := replicate 2000 65\<rparr>))) = 1024
   \<and> inbound (conn (doSomething (client_ping\<lparr>inbound := replicate 2000 65\<rparr>)))
     = replicate 976 65"
  using doSomething_reads_once [of "client_ping\<lparr>inbound := replicate 2000 65\<rparr>"]
  by (simp add: conn_Read_def)

section \<open>Properties of the process\<close>

lemmas run_defs = main_def boot_def step_def main_step_def handler_step_def doSomething_step_def
  spawn_def conn_Read_def conn_Write_def conn_Close_def Fatalf_in_def

subsection \<open>What stays true while no read and no accept reports an error\<close>

lemma step_exited: "exited s \<noteq> None \<Longrightarrow> step t s = s"
  by (simp add: step_def)

lemma run_exited: "exited s \<noteq> None \<Longrightarrow> run sched s = s"
  by (induction sched) (simp_all add: step_exited)

lemma run_append: "run (xs @ ys) s = run ys (run xs s)"
  by (induction xs arbitrary: s) simp_all

lemma s_inv_boot: "list_all well_behaved acc \<Longrightarrow> s_inv (boot None acc)"
  by (simp add: s_inv_def boot_def m_inv_def)

lemma g_inv_step:
  assumes "g_inv g"
  shows "g_inv (fst (doSomething_step g)) \<and> snd (snd (doSomething_step g)) = None"
  using assms
  by (cases "g_pc g")
     (auto simp: g_inv_def doSomething_step_def conn_Read_def conn_Write_def conn_Close_def
       delivered_def Let_def split: prod.splits option.splits)

lemma s_inv_main_step:
  assumes "s_inv s"
  shows "s_inv (main_step s)"
proof (cases "m_pc s")
  case M37
  show ?thesis
  proof (cases "backlog s")
    case Nil
    with M37 assms show ?thesis by (simp add: main_step_def)
  next
    case (Cons a rest)
    with M37 assms show ?thesis
      by (cases a) (auto simp: main_step_def s_inv_def m_inv_def)
  qed
qed (use assms in \<open>auto simp: main_step_def s_inv_def m_inv_def spawn_def g_inv_def\<close>)

lemma handler_step_alt:
  "k < length (goroutines s) \<Longrightarrow>
   handler_step k s =
     s\<lparr>goroutines := (goroutines s)[k := fst (doSomething_step (goroutines s ! k))],
       log := log s @ map (Pair (HandlerT k)) (fst (snd (doSomething_step (goroutines s ! k)))),
       exited := snd (snd (doSomething_step (goroutines s ! k)))\<rparr>"
  by (simp add: handler_step_def split: prod.splits)

lemma s_inv_handler_step:
  assumes "s_inv s"
  shows "s_inv (handler_step k s)"
proof (cases "k < length (goroutines s)")
  case False
  with assms show ?thesis by (simp add: handler_step_def)
next
  case True
  let ?g = "goroutines s ! k"
  from assms True have "g_inv ?g" by (simp add: s_inv_def list_all_length)
  then have g': "g_inv (fst (doSomething_step ?g))" and ex: "snd (snd (doSomething_step ?g)) = None"
    using g_inv_step by blast+
  have "list_all g_inv ((goroutines s)[k := fst (doSomething_step ?g)])"
    using assms g' set_update_subset_insert [of "goroutines s" k "fst (doSomething_step ?g)"]
    by (auto simp: s_inv_def list_all_iff)
  with assms True ex show ?thesis
    by (simp add: handler_step_alt s_inv_def m_inv_def)
qed

lemma s_inv_step: "s_inv s \<Longrightarrow> s_inv (step t s)"
  by (cases t) (simp_all add: step_def s_inv_main_step s_inv_handler_step)

lemma s_inv_run: "s_inv s \<Longrightarrow> s_inv (run sched s)"
  by (induction sched arbitrary: s) (simp_all add: s_inv_step)


lemma accepted_conns_map [simp]: "accepted_conns (map Accepted cs) = cs"
  by (induction cs) simp_all

lemma well_behaved_map: "list_all fresh cs \<Longrightarrow> list_all well_behaved (map Accepted cs)"
  by (induction cs) (simp_all add: fresh_def)

lemma m_rem_main_step: "s_inv s \<Longrightarrow> m_rem (main_step s) = m_rem s - 1"
proof (cases "m_pc s")
  case M37
  assume "s_inv s"
  show ?thesis
  proof (cases "backlog s")
    case Nil
    with M37 show ?thesis by (simp add: main_step_def m_rem_def)
  next
    case (Cons a rest)
    with M37 show ?thesis by (cases a) (simp_all add: main_step_def m_rem_def)
  qed
qed (auto simp: main_step_def m_rem_def s_inv_def m_inv_def)

lemma m_rem_handler_step: "m_rem (handler_step k s) = m_rem s"
  by (simp add: handler_step_def m_rem_def split: prod.splits)

lemma m_rem_run: "s_inv s \<Longrightarrow> m_rem (run sched s) = m_rem s - count_list sched MainT"
proof (induction sched arbitrary: s)
  case Nil
  then show ?case by simp
next
  case (Cons t ts)
  from Cons.prems have ex: "exited s = None" by (simp add: s_inv_def)
  have "m_rem (step t s) = m_rem s - (if t = MainT then 1 else 0)"
    using Cons.prems ex by (cases t) (simp_all add: step_def m_rem_main_step m_rem_handler_step)
  moreover have "m_rem (run ts (step t s)) = m_rem (step t s) - count_list ts MainT"
    using Cons.IH [OF s_inv_step [OF Cons.prems]] .
  ultimately show ?case by simp
qed

lemma m_rem_0: "m_rem s = 0 \<Longrightarrow> m_pc s = M37 \<and> backlog s = []"
  by (cases "m_pc s") (simp_all add: m_rem_def)

lemma clients_main_step: "s_inv s \<Longrightarrow> map peer (clients (main_step s)) = map peer (clients s)"
proof (cases "m_pc s")
  case M37
  assume "s_inv s"
  show ?thesis
  proof (cases "backlog s")
    case Nil
    with M37 show ?thesis by (simp add: main_step_def)
  next
    case (Cons a rest)
    with M37 show ?thesis by (cases a) (simp_all add: main_step_def clients_def)
  qed
qed (auto simp: main_step_def clients_def s_inv_def m_inv_def spawn_def)

lemma peer_doSomething_step: "peer (g_conn (fst (doSomething_step g))) = peer (g_conn g)"
  by (cases "g_pc g")
     (auto simp: doSomething_step_def peer_def conn_Read_def conn_Write_def conn_Close_def Let_def
       split: prod.splits option.splits)

lemma clients_handler_step: "map peer (clients (handler_step k s)) = map peer (clients s)"
proof (cases "k < length (goroutines s)")
  case False
  then show ?thesis by (simp add: handler_step_def)
next
  case True
  have "map (peer \<circ> g_conn) ((goroutines s)[k := fst (doSomething_step (goroutines s ! k))])
        = map (peer \<circ> g_conn) (goroutines s)"
    using True by (simp add: map_update peer_doSomething_step list_update_same_conv)
  with True show ?thesis by (simp add: handler_step_alt clients_def)
qed

lemma clients_run: "s_inv s \<Longrightarrow> map peer (clients (run sched s)) = map peer (clients s)"
proof (induction sched arbitrary: s)
  case Nil
  then show ?case by simp
next
  case (Cons t ts)
  from Cons.prems have ex: "exited s = None" by (simp add: s_inv_def)
  have "map peer (clients (step t s)) = map peer (clients s)"
    using Cons.prems ex by (cases t) (simp_all add: step_def clients_main_step clients_handler_step)
  with Cons.IH [OF s_inv_step [OF Cons.prems]] show ?case by simp
qed

lemma goroutines_step_other:
  "k < length (goroutines s) \<Longrightarrow> t \<noteq> HandlerT k \<Longrightarrow> goroutines (step t s) ! k = goroutines s ! k"
proof (cases t)
  case MainT
  assume "k < length (goroutines s)"
  with MainT show ?thesis
    by (cases "m_pc s")
       (auto simp: step_def main_step_def Fatalf_in_def nth_append
         split: option.splits list.splits accepted.splits)
next
  case (HandlerT j)
  assume "k < length (goroutines s)" "t \<noteq> HandlerT k"
  with HandlerT show ?thesis
    by (auto simp: step_def handler_step_def split: prod.splits)
qed

lemma goroutines_step_length: "length (goroutines s) \<le> length (goroutines (step t s))"
proof (cases t)
  case MainT
  then show ?thesis
    by (cases "m_pc s")
       (auto simp: step_def main_step_def Fatalf_in_def
         split: option.splits list.splits accepted.splits)
next
  case (HandlerT j)
  then show ?thesis by (auto simp: step_def handler_step_def split: prod.splits)
qed

lemma h_rem_doSomething_step:
  "g_inv g \<Longrightarrow> h_rem (g_pc (fst (doSomething_step g))) = h_rem (g_pc g) - 1"
  by (cases "g_pc g")
     (auto simp: doSomething_step_def g_inv_def Let_def split: prod.splits option.splits)

lemma h_rem_step:
  assumes "s_inv s" "k < length (goroutines s)"
  shows "h_rem (g_pc (goroutines (step t s) ! k))
         = h_rem (g_pc (goroutines s ! k)) - (if t = HandlerT k then 1 else 0)"
proof (cases "t = HandlerT k")
  case True
  from assms have "g_inv (goroutines s ! k)" by (simp add: s_inv_def list_all_length)
  with True assms show ?thesis
    by (simp add: step_def s_inv_def handler_step_alt h_rem_doSomething_step)
next
  case False
  with assms show ?thesis by (simp add: goroutines_step_other)
qed

lemma h_rem_run:
  assumes "s_inv s" "k < length (goroutines s)"
  shows "k < length (goroutines (run sched s))
       \<and> h_rem (g_pc (goroutines (run sched s) ! k))
         = h_rem (g_pc (goroutines s ! k)) - count_list sched (HandlerT k)"
  using assms
proof (induction sched arbitrary: s)
  case Nil
  then show ?case by simp
next
  case (Cons t ts)
  have len: "k < length (goroutines (step t s))"
    using Cons.prems(2) goroutines_step_length [of s t] by simp
  from Cons.IH [OF s_inv_step [OF Cons.prems(1)] len] h_rem_step [OF Cons.prems, of t]
  show ?case by simp
qed

lemma h_rem_le: "h_rem p \<le> 5"
  by (cases p) simp_all

lemma h_rem_0: "h_rem p = 0 \<Longrightarrow> p = HRet"
  by (cases p) simp_all


subsection \<open>Errors inside a handler\<close>

text \<open>
  C4, as stated: no error inside a handler, of its read or of its write, reaches the
  listener or another handler, and the accept loop goes on serving. This fails for a
  read error: the first client closes without sending, its handler ends the process, and
  the second client is never accepted, let alone answered.
\<close>

theorem read_error_stops_accept_loop:
  "exited (main one_by_one None [Accepted client_gone, Accepted client_ping]) = Some 1
   \<and> backlog (main one_by_one None [Accepted client_gone, Accepted client_ping])
     = [Accepted client_ping]
   \<and> map (outbound \<circ> g_conn)
       (goroutines (main one_by_one None [Accepted client_gone, Accepted client_ping])) = [[]]"
  by (simp add: run_defs one_by_one_def sample_clients)

text \<open>
  C4, amended: a write failure inside a handler never reaches the listener or another
  handler. When no read and no accept reports an error, the process is still running
  after every schedule, whatever the writes do; and once \<^verbatim>\<open>main\<close> has executed the
  \<open>4 + 4 * length cs\<close> statements that dispatch all connections \<open>cs\<close> and the handler
  of connection \<open>k\<close> has then executed its five statements, that handler has returned,
  its connection is closed once, and a client whose own write does not fail has
  received exactly the response, also when the writes of other handlers failed.
\<close>

theorem write_failure_stays_in_handler:
  assumes "list_all fresh cs"
  shows "exited (main sched None (map Accepted cs)) = None
       \<and> (k < length cs \<and> write_fail (cs ! k) = None
          \<and> 4 + 4 * length cs \<le> count_list sched1 MainT
          \<and> 5 \<le> count_list sched2 (HandlerT k) \<longrightarrow>
            g_pc (goroutines (main (sched1 @ sched2) None (map Accepted cs)) ! k) = HRet
          \<and> remote (g_conn (goroutines (main (sched1 @ sched2) None (map Accepted cs)) ! k))
            = remote (cs ! k)
          \<and> outbound (g_conn (goroutines (main (sched1 @ sched2) None (map Accepted cs)) ! k))
            = bytes response
          \<and> closes (g_conn (goroutines (main (sched1 @ sched2) None (map Accepted cs)) ! k)) = 1)"
proof -
  let ?s0 = "boot None (map Accepted cs)"
  have inv0: "s_inv ?s0"
    using assms by (simp add: s_inv_boot well_behaved_map)
  have safe: "exited (main sched None (map Accepted cs)) = None"
    using s_inv_run [OF inv0, of sched] by (simp add: main_def s_inv_def)
  have served: "g_pc (goroutines (main (sched1 @ sched2) None (map Accepted cs)) ! k) = HRet
          \<and> remote (g_conn (goroutines (main (sched1 @ sched2) None (map Accepted cs)) ! k))
            = remote (cs ! k)
          \<and> outbound (g_conn (goroutines (main (sched1 @ sched2) None (map Accepted cs)) ! k))
            = bytes response
          \<and> closes (g_conn (goroutines (main (sched1 @ sched2) None (map Accepted cs)) ! k)) = 1"
    if k: "k < length cs" and w: "write_fail (cs ! k) = None"
      and c1: "4 + 4 * length cs \<le> count_list sched1 MainT"
      and c2: "5 \<le> count_list sched2 (HandlerT k)"
  proof -
    let ?s1 = "run sched1 ?s0"
    let ?s2 = "run sched2 ?s1"
    have inv1: "s_inv ?s1" using inv0 by (rule s_inv_run)
    have inv2: "s_inv ?s2" using inv1 by (rule s_inv_run)
    have "m_rem ?s0 = 4 + 4 * length cs" by (simp add: m_rem_def boot_def)
    with m_rem_run [OF inv0, of sched1] c1 have "m_rem ?s1 = 0" by simp
    then have idle: "m_pc ?s1 = M37" "backlog ?s1 = []" using m_rem_0 by blast+
    have cl0: "clients ?s0 = cs" by (simp add: clients_def boot_def)
    have "map peer (clients ?s1) = map peer cs"
      using clients_run [OF inv0, of sched1] cl0 by simp
    moreover have "clients ?s1 = map g_conn (goroutines ?s1)"
      using idle by (simp add: clients_def)
    ultimately have "length (goroutines ?s1) = length cs"
      by (metis length_map)
    with k have k1: "k < length (goroutines ?s1)" by simp
    have "h_rem (g_pc (goroutines ?s1 ! k)) \<le> count_list sched2 (HandlerT k)"
      using c2 h_rem_le [of "g_pc (goroutines ?s1 ! k)"] by linarith
    with h_rem_run [OF inv1 k1, of sched2]
    have k2: "k < length (goroutines ?s2)" and "h_rem (g_pc (goroutines ?s2 ! k)) = 0"
      by simp_all
    then have ret: "g_pc (goroutines ?s2 ! k) = HRet" using h_rem_0 by blast
    have ginv: "g_inv (goroutines ?s2 ! k)"
      using inv2 k2 by (simp add: s_inv_def list_all_length)
    have "map peer (clients ?s2) ! k = map peer cs ! k"
      using clients_run [OF inv1, of sched2] clients_run [OF inv0, of sched1] cl0 by simp
    then have pe: "peer (g_conn (goroutines ?s2 ! k)) = peer (cs ! k)"
      using k k2 by (simp add: clients_def nth_append)
    from ginv ret pe w show ?thesis
      by (simp add: main_def run_append g_inv_def peer_def delivered_def)
  qed
  from safe served show ?thesis by blast
qed

theorem write_failure_stays_in_handler_witness:
  "list_all fresh [client_reset, client_ping]
   \<and> write_fail client_reset \<noteq> None
   \<and> exited (main one_by_one None (map Accepted [client_reset, client_ping])) = None
   \<and> write_fail ([client_reset, client_ping] ! 1) = None
   \<and> 4 + 4 * length [client_reset, client_ping] \<le> count_list (take 17 one_by_one) MainT
   \<and> 5 \<le> count_list (drop 17 one_by_one) (HandlerT 1)
   \<and> g_pc (goroutines (main one_by_one None (map Accepted [client_reset, client_ping])) ! 1)
     = HRet
   \<and> outbound
       (g_conn (goroutines (main one_by_one None (map Accepted [client_reset, client_ping])) ! 1))
     = bytes response
   \<and> closes
       (g_conn (goroutines (main one_by_one None (map Accepted [client_reset, client_ping])) ! 1))
     = 1"
  using write_failure_stays_in_handler
    [of "[client_reset, client_ping]" one_by_one 1 "take 17 one_by_one" "drop 17 one_by_one"]
  by (simp add: fresh_def sample_clients one_by_one_def)

subsection \<open>Errors of accept\<close>

text \<open>
  C5, as stated: a transient accept error is logged and the loop continues; the process
  is never ended outright on an arbitrary accept error. This fails: the first
  \<^verbatim>\<open>Accept\<close> reports a temporary error, \<^verbatim>\<open>main\<close> ends the process, and the client
  that comes next is never accepted.
\<close>

theorem transient_accept_error_exits:
  "temporary emfile
   \<and> exited (main one_by_one None [AcceptError emfile, Accepted client_ping]) = Some 1
   \<and> backlog (main one_by_one None [AcceptError emfile, Accepted client_ping])
     = [Accepted client_ping]
   \<and> goroutines (main one_by_one None [AcceptError emfile, Accepted client_ping]) = []"
  by (simp add: run_defs one_by_one_def emfile_def)

lemma doSomething_step_exit: "snd (snd (doSomething_step g)) \<in> {None, Some 1}"
  by (cases "g_pc g")
     (auto simp: doSomething_step_def Let_def split: prod.splits option.splits)

lemma accept_failing_step:
  assumes "accept_failing e rest n s"
  shows "accept_failing e rest n (step t s)
       \<and> a_rank (step t s) \<le> a_rank s - (if t = MainT then 1 else 0)"
proof (cases "exited s")
  case (Some x)
  with assms show ?thesis by (simp add: step_def a_rank_def)
next
  case None
  show ?thesis
  proof (cases t)
    case MainT
    with None assms show ?thesis
      by (auto simp: accept_failing_def step_def main_step_def Fatalf_in_def a_rank_def)
  next
    case (HandlerT k)
    show ?thesis
    proof (cases "k < length (goroutines s)")
      case False
      with None HandlerT assms show ?thesis by (simp add: step_def handler_step_def)
    next
      case True
      with None HandlerT assms doSomething_step_exit [of "goroutines s ! k"] show ?thesis
        by (auto simp: accept_failing_def step_def handler_step_alt a_rank_def)
    qed
  qed
qed

lemma accept_failing_run:
  assumes "accept_failing e rest n s"
  shows "accept_failing e rest n (run sched s)
       \<and> a_rank (run sched s) \<le> a_rank s - count_list sched MainT"
  using assms
proof (induction sched arbitrary: s)
  case Nil
  then show ?case by simp
next
  case (Cons t ts)
  from accept_failing_step [OF Cons.prems, of t]
  have 1: "accept_failing e rest n (step t s)"
    and 2: "a_rank (step t s) \<le> a_rank s - (if t = MainT then 1 else 0)" by blast+
  from Cons.IH [OF 1] 2 show ?case by auto
qed

text \<open>
  C5, amended: when \<^verbatim>\<open>Accept\<close> fails with any error, temporary or not, \<^verbatim>\<open>main\<close> passes
  it to \<^verbatim>\<open>log.Fatalf\<close>: the error is logged and the whole process ends with exit status
  1. The two statements of \<^verbatim>\<open>main\<close> do just that; under every schedule in which
  \<^verbatim>\<open>main\<close> gets two statements the process has exited with status 1; and under every
  schedule no further connection is taken from the backlog or handed to a goroutine.
\<close>

theorem accept_error_ends_process:
  assumes "exited s = None" and "m_pc s = M37" and "backlog s = AcceptError e # rest"
  shows "run [MainT, MainT] s =
           s\<lparr>backlog := rest, m_conn := None, m_err := Some e, m_pc := M38,
             log := log s @ [(MainT, Fatalf (''unable to get listener. error: %v'' @ msg e))],
             exited := Some 1\<rparr>
       \<and> (2 \<le> count_list sched MainT \<longrightarrow> exited (run sched s) = Some 1)
       \<and> length (goroutines (run sched s)) = length (goroutines s)
       \<and> (backlog (run sched s) = AcceptError e # rest \<or> backlog (run sched s) = rest)"
proof -
  have two: "run [MainT, MainT] s =
           s\<lparr>backlog := rest, m_conn := None, m_err := Some e, m_pc := M38,
             log := log s @ [(MainT, Fatalf (''unable to get listener. error: %v'' @ msg e))],
             exited := Some 1\<rparr>"
    using assms by (simp add: step_def main_step_def Fatalf_in_def)
  have "accept_failing e rest (length (goroutines s)) s"
    using assms by (simp add: accept_failing_def)
  from accept_failing_run [OF this, of sched]
  have af: "accept_failing e rest (length (goroutines s)) (run sched s)"
    and rk: "a_rank (run sched s) \<le> a_rank s - count_list sched MainT" by blast+
  have "a_rank s = 2" using assms by (simp add: a_rank_def)
  with rk have "2 \<le> count_list sched MainT \<Longrightarrow> a_rank (run sched s) = 0" by simp
  then have ex: "2 \<le> count_list sched MainT \<Longrightarrow> exited (run sched s) = Some 1"
    using af by (auto simp: a_rank_def accept_failing_def split: if_splits option.splits)
  from af have "length (goroutines (run sched s)) = length (goroutines s)"
    and "backlog (run sched s) = AcceptError e # rest \<or> backlog (run sched s) = rest"
    by (auto simp: accept_failing_def split: option.splits)
  with two ex show ?thesis by blast
qed

theorem accept_error_ends_process_witness:
  "exited (listening [AcceptError emfile, Accepted client_ping]) = None
   \<and> m_pc (listening [AcceptError emfile, Accepted client_ping]) = M37
   \<and> backlog (listening [AcceptError emfile, Accepted client_ping])
     = AcceptError emfile # [Accepted client_ping]
   \<and> log (run [MainT, MainT] (listening [AcceptError emfile, Accepted client_ping]))
     = [(MainT, Print ''Server starting''), (MainT, Info ''Server listening'' [''listner'']),
        (MainT, Fatalf (''unable to get listener. error: %v'' @ msg emfile))]
   \<and> 2 \<le> count_list [HandlerT 0, MainT, HandlerT 0, MainT, MainT] MainT
   \<and> exited (run [HandlerT 0, MainT, HandlerT 0, MainT, MainT]
        (listening [AcceptError emfile, Accepted client_ping])) = Some 1
   \<and> length (goroutines (run [HandlerT 0, MainT, HandlerT 0, MainT, MainT]
        (listening [AcceptError emfile, Accepted client_ping]))) = 0
   \<and> backlog (run [HandlerT 0, MainT, HandlerT 0, MainT, MainT]
        (listening [AcceptError emfile, Accepted client_ping])) = [Accepted client_ping]"
  using accept_error_ends_process
    [of "listening [AcceptError emfile, Accepted client_ping]" emfile "[Accepted client_ping]"
        "[HandlerT 0, MainT, HandlerT 0, MainT, MainT]"]
  by (simp add: listening_def run_defs emfile_def)

subsection \<open>Errors of the write\<close>

text \<open>The sample process just before the handler of a resetting client writes.\<close>

lemma at_write_reset:
  "at_write client_reset =
     \<lparr>exited = None, listen_result = None, backlog = [], m_pc = M37, m_err = None,
      m_conn = Some client_reset,
      goroutines = [\<lparr>g_pc = H18, g_conn = client_reset\<lparr>inbound := []\<rparr>, g_n = 4, g_err = None\<rparr>],
      log = [(MainT, Print ''Server starting''), (MainT, Info ''Server listening'' [''listner'']),
             (MainT, Info ''connection waiting for accept. '' [''conn'']),
             (HandlerT 0, CallRead 1024), (HandlerT 0, Info ''number of bytes4'' [])]\<rparr>"
  by (simp add: at_write_def run_defs sample_clients bytes_def Itoa_def digits_eval digit_def)

text \<open>
  C6, as stated: a write failure is logged. This fails: the handler drops both results
  of \<^verbatim>\<open>Write\<close>. For a client whose write fails, the only log entry is the byte count,
  made before the write; nothing is logged from the write on.
\<close>

theorem write_failure_not_logged:
  "fst (conn_Write (bytes response) (snd (conn_Read 1024 client_reset)))
     = (0, Some (Error ''write: broken pipe'' False))
   \<and> filter is_log (trace (doSomething client_reset)) = [Info ''number of bytes4'' []]
   \<and> filter is_log (dropWhile (\<lambda>e. \<not> is_CallWrite e) (trace (doSomething client_reset))) = []"
  by (simp add: doSomething_def conn_Read_def conn_Write_def conn_Close_def sample_clients
      bytes_def Itoa_def digits_eval digit_def)

text \<open>
  C6, amended: a write failure is neither logged nor acted on. The statement that writes
  changes the handler's own connection and adds the call to the log, and nothing else:
  the process keeps running, and the listener, the backlog and every other goroutine
  are as before. Whether the write fails or not, the handler has the same effects, ends
  the same way and closes its connection as often.
\<close>

theorem write_failure_ignored:
  assumes "exited s = None" and "k < length (goroutines s)"
    and "g_pc (goroutines s ! k) = H18"
  shows "step (HandlerT k) s =
           s\<lparr>goroutines := (goroutines s)
                [k := (goroutines s ! k)
                   \<lparr>g_pc := H19,
                    g_conn := snd (conn_Write (bytes response) (g_conn (goroutines s ! k)))\<rparr>],
             log := log s @ [(HandlerT k, CallWrite (bytes response))]\<rparr>
       \<and> trace (doSomething (c\<lparr>write_fail := w\<rparr>)) = trace (doSomething c)
       \<and> exit (doSomething (c\<lparr>write_fail := w\<rparr>)) = exit (doSomething c)
       \<and> closes (conn (doSomething (c\<lparr>write_fail := w\<rparr>))) = closes (conn (doSomething c))"
proof -
  have "step (HandlerT k) s =
           s\<lparr>goroutines := (goroutines s)
                [k := (goroutines s ! k)
                   \<lparr>g_pc := H19,
                    g_conn := snd (conn_Write (bytes response) (g_conn (goroutines s ! k)))\<rparr>],
             log := log s @ [(HandlerT k, CallWrite (bytes response))]\<rparr>"
    using assms
    by (simp add: step_def handler_step_def doSomething_step_def split: prod.splits)
  moreover have "trace (doSomething (c\<lparr>write_fail := w\<rparr>)) = trace (doSomething c)
       \<and> exit (doSomething (c\<lparr>write_fail := w\<rparr>)) = exit (doSomething c)
       \<and> closes (conn (doSomething (c\<lparr>write_fail := w\<rparr>))) = closes (conn (doSomething c))"
    by (cases "read_err c")
       (auto simp: doSomething_def conn_Read_def conn_Write_def conn_Close_def Let_def
         split: prod.splits option.splits)
  ultimately show ?thesis by blast
qed

theorem write_failure_ignored_witness:
  "exited (at_write client_reset) = None
   \<and> 0 < length (goroutines (at_write client_reset))
   \<and> g_pc (goroutines (at_write client_reset) ! 0) = H18
   \<and> exited (step (HandlerT 0) (at_write client_reset)) = None
   \<and> backlog (step (HandlerT 0) (at_write client_reset)) = backlog (at_write client_reset)
   \<and> m_pc (step (HandlerT 0) (at_write client_reset)) = m_pc (at_write client_reset)
   \<and> map g_pc (goroutines (step (HandlerT 0) (at_write client_reset))) = [H19]
   \<and> log (step (HandlerT 0) (at_write client_reset))
     = log (at_write client_reset) @ [(HandlerT 0, CallWrite (bytes response))]
   \<and> trace (doSomething (client_ping\<lparr>write_fail := Some (0, Error ''write: broken pipe'' False)\<rparr>))
     = trace (doSomething client_ping)
   \<and> exit (doSomething (client_ping\<lparr>write_fail := Some (0, Error ''write: broken pipe'' False)\<rparr>))
     = exit (doSomething client_ping)
   \<and> closes (conn (doSomething
        (client_ping\<lparr>write_fail := Some (0, Error ''write: broken pipe'' False)\<rparr>)))
     = closes (conn (doSomething client_ping))"
proof -
  have h: "exited (at_write client_reset) = None"
    "0 < length (goroutines (at_write client_reset))"
    "g_pc (goroutines (at_write client_reset) ! 0) = H18"
    by (simp_all add: at_write_reset)
  from h write_failure_ignored
    [OF h, where c = client_ping and w = "Some (0, Error ''write: broken pipe'' False)"]
  show ?thesis by (simp add: at_write_reset)
qed

end
